theory Spec2Isabelle
  imports Main "HOL-Library.Word" "HOL-Library.Signed_Division"
begin

unbundle bit_operations_syntax

section \<open>Shared data model\<close>

text \<open>
  The two assembler backends modelled here are \<^verbatim>\<open>RISCVAsmBackend.cpp\<close> and
  \<^verbatim>\<open>SystemZMCAsmBackend.cpp\<close>. Values are \<^verbatim>\<open>uint64_t\<close>, fixup offsets and the
  locals declared \<^verbatim>\<open>unsigned\<close> are 32-bit words, and the fragment buffer
  \<^verbatim>\<open>MutableArrayRef<char> Data\<close> is a list of bytes.
\<close>

type_synonym u8 = "8 word"
type_synonym u32 = "32 word"
type_synonym u64 = "64 word"

text \<open>
  The target-independent fixup kinds (\<^verbatim>\<open>Kind < FirstTargetFixupKind\<close>). Their
  declaration in \<^verbatim>\<open>llvm/MC/MCFixup.h\<close> is not among the sources; the backends name the
  four data kinds, and the remaining target-independent kinds are kept apart by a number.
\<close>

datatype generic_kind = FK_Data_1 | FK_Data_2 | FK_Data_4 | FK_Data_8 | FK_Other nat

record MCFixupKindInfo =
  Name :: string
  TargetOffset :: nat
  TargetSize :: nat
  IsPCRel :: bool

text \<open>
  The ways a call can leave the defined behaviour of the program: \<^verbatim>\<open>llvm_unreachable\<close>,
  a failed \<^verbatim>\<open>assert\<close>, and an access to \<^verbatim>\<open>Data\<close> at an index that is not below
  \<^verbatim>\<open>Data.size()\<close>.
\<close>

datatype fault = Unreachable | AssertionFailed | OutOfBounds

text \<open>
  The error code that \<^verbatim>\<open>applyFixup\<close> receives by reference as
  \<^verbatim>\<open>unsigned int &KsError\<close>. The sources name one code of \<^verbatim>\<open>keystone.h\<close>,
  \<^verbatim>\<open>KS_ERR_ASM_FIXUP_INVALID\<close>; the others are kept apart by a number.
\<close>

datatype ks_err = KS_ERR_OK | KS_ERR_ASM_FIXUP_INVALID | KS_ERR_Other nat

text \<open>
  Modelled from the spec: \<^verbatim>\<open>MCContext::reportError\<close> is not among the sources; the spec
  has every error reported through a shared error-context object carrying a source
  location and a message. The context is the list of the diagnostics reported so far,
  and \<^verbatim>\<open>reportError(Loc, Msg)\<close> appends one.
\<close>

type_synonym MCContext = "(nat \<times> string) list"

definition reportError :: "nat \<Rightarrow> string \<Rightarrow> MCContext \<Rightarrow> MCContext" where
  "reportError L Msg Ctx = Ctx @ [(L, Msg)]"

text \<open>
  Modelled from the spec: \<^verbatim>\<open>isInt<N>\<close> of \<^verbatim>\<open>llvm/Support/MathExtras.h\<close> is not among
  the sources; the spec calls it \<^verbatim>\<open>isSignedNBit(value, N)\<close>, the value read as a signed
  64-bit integer fits in \<open>N\<close> signed bits.
\<close>

definition isInt :: "nat \<Rightarrow> u64 \<Rightarrow> bool" where
  "isInt N x = (64 \<le> N \<or> (- (2 ^ (N - 1)) \<le> sint x \<and> sint x < 2 ^ (N - 1)))"

section \<open>The RISC-V backend\<close>

datatype riscv_kind =
    RV_Generic generic_kind
  | fixup_riscv_hi20
  | fixup_riscv_lo12_i
  | fixup_riscv_lo12_s
  | fixup_riscv_pcrel_hi20
  | fixup_riscv_jal
  | fixup_riscv_branch
  | fixup_riscv_rvc_jump
  | fixup_riscv_rvc_branch

record riscv_fixup =
  Kind :: riscv_kind
  Offset :: u32
  Loc :: nat

text \<open>
  \<^verbatim>\<open>RISCVAsmBackend::getFixupKindInfo\<close>. The table of the base class
  \<^verbatim>\<open>MCAsmBackend::getFixupKindInfo\<close> is not among the sources and is the parameter
  \<open>base\<close>.
\<close>

fun getFixupKindInfo :: "(generic_kind \<Rightarrow> MCFixupKindInfo) \<Rightarrow> riscv_kind \<Rightarrow> MCFixupKindInfo" where
  "getFixupKindInfo base (RV_Generic g) = base g"
| "getFixupKindInfo base fixup_riscv_hi20 =
     \<lparr>Name = ''fixup_riscv_hi20'', TargetOffset = 12, TargetSize = 20, IsPCRel = False\<rparr>"
| "getFixupKindInfo base fixup_riscv_lo12_i =
     \<lparr>Name = ''fixup_riscv_lo12_i'', TargetOffset = 20, TargetSize = 12, IsPCRel = False\<rparr>"
| "getFixupKindInfo base fixup_riscv_lo12_s =
     \<lparr>Name = ''fixup_riscv_lo12_s'', TargetOffset = 0, TargetSize = 32, IsPCRel = False\<rparr>"
| "getFixupKindInfo base fixup_riscv_pcrel_hi20 =
     \<lparr>Name = ''fixup_riscv_pcrel_hi20'', TargetOffset = 12, TargetSize = 20, IsPCRel = True\<rparr>"
| "getFixupKindInfo base fixup_riscv_jal =
     \<lparr>Name = ''fixup_riscv_jal'', TargetOffset = 12, TargetSize = 20, IsPCRel = True\<rparr>"
| "getFixupKindInfo base fixup_riscv_branch =
     \<lparr>Name = ''fixup_riscv_branch'', TargetOffset = 0, TargetSize = 32, IsPCRel = True\<rparr>"
| "getFixupKindInfo base fixup_riscv_rvc_jump =
     \<lparr>Name = ''fixup_riscv_rvc_jump'', TargetOffset = 2, TargetSize = 11, IsPCRel = True\<rparr>"
| "getFixupKindInfo base fixup_riscv_rvc_branch =
     \<lparr>Name = ''fixup_riscv_rvc_branch'', TargetOffset = 0, TargetSize = 16, IsPCRel = True\<rparr>"

text \<open>
  The bit packings of \<^verbatim>\<open>adjustFixupValue\<close>. Each field is extracted from the 64-bit
  value and stored in an \<^verbatim>\<open>unsigned\<close> local; the fields are shifted and combined in
  32-bit arithmetic and the result is widened to 64 bits on assignment to \<^verbatim>\<open>Value\<close>.
\<close>

definition field :: "u64 \<Rightarrow> nat \<Rightarrow> u64 \<Rightarrow> u32" where
  "field Value n m = ucast (drop_bit n Value AND m)"

definition pack_jal :: "u64 \<Rightarrow> u64" where
  "pack_jal Value =
     (let Sbit = field Value 20 0x1;
          Hi8 = field Value 12 0xff;
          Mid1 = field Value 11 0x1;
          Lo10 = field Value 1 0x3ff
      in ucast (push_bit 19 Sbit OR push_bit 9 Lo10 OR push_bit 8 Mid1 OR Hi8))"

definition pack_branch :: "u64 \<Rightarrow> u64" where
  "pack_branch Value =
     (let Sbit = field Value 12 0x1;
          Hi1 = field Value 11 0x1;
          Mid6 = field Value 5 0x3f;
          Lo4 = field Value 1 0xf
      in ucast (push_bit 31 Sbit OR push_bit 25 Mid6 OR push_bit 8 Lo4 OR push_bit 7 Hi1))"

definition pack_rvc_jump :: "u64 \<Rightarrow> u64" where
  "pack_rvc_jump Value =
     (let Bit11 = field Value 11 0x1;
          Bit4 = field Value 4 0x1;
          Bit9_8 = field Value 8 0x3;
          Bit10 = field Value 10 0x1;
          Bit6 = field Value 6 0x1;
          Bit7 = field Value 7 0x1;
          Bit3_1 = field Value 1 0x7;
          Bit5 = field Value 5 0x1
      in ucast (push_bit 10 Bit11 OR push_bit 9 Bit4 OR push_bit 7 Bit9_8 OR push_bit 6 Bit10 OR
                push_bit 5 Bit6 OR push_bit 4 Bit7 OR push_bit 1 Bit3_1 OR Bit5))"

definition pack_rvc_branch :: "u64 \<Rightarrow> u64" where
  "pack_rvc_branch Value =
     (let Bit8 = field Value 8 0x1;
          Bit7_6 = field Value 6 0x3;
          Bit5 = field Value 5 0x1;
          Bit4_3 = field Value 3 0x3;
          Bit2_1 = field Value 1 0x3
      in ucast (push_bit 12 Bit8 OR push_bit 10 Bit4_3 OR push_bit 5 Bit7_6 OR push_bit 3 Bit2_1 OR
                push_bit 2 Bit5))"

text \<open>
  The two checks that open the \<^verbatim>\<open>fixup_riscv_jal\<close> and \<^verbatim>\<open>fixup_riscv_branch\<close> cases.
  Neither returns: both errors can be reported for one value, and the packing follows.
\<close>

definition check_range_align :: "nat \<Rightarrow> nat \<Rightarrow> u64 \<Rightarrow> MCContext \<Rightarrow> MCContext" where
  "check_range_align N L Value Ctx =
     (let Ctx1 = (if \<not> isInt N Value then reportError L ''fixup value out of range'' Ctx else Ctx)
      in if Value AND 0x1 \<noteq> 0 then reportError L ''fixup value must be 2-byte aligned'' Ctx1
         else Ctx1)"

text \<open>
  \<^verbatim>\<open>adjustFixupValue(Fixup, Value, Ctx)\<close>: the adjusted value and the context after the
  call, or \<open>Unreachable\<close> for a kind outside the \<^verbatim>\<open>switch\<close>.
\<close>

fun adjustFixupValue :: "riscv_fixup \<Rightarrow> u64 \<Rightarrow> MCContext \<Rightarrow> fault + (u64 \<times> MCContext)" where
  "adjustFixupValue Fixup Value Ctx =
     (case Kind Fixup of
        RV_Generic (FK_Other _) \<Rightarrow> Inl Unreachable
      | RV_Generic _ \<Rightarrow> Inr (Value, Ctx)
      | fixup_riscv_lo12_i \<Rightarrow> Inr (Value AND 0xfff, Ctx)
      | fixup_riscv_lo12_s \<Rightarrow>
          Inr (push_bit 25 (drop_bit 5 Value AND 0x7f) OR push_bit 7 (Value AND 0x1f), Ctx)
      | fixup_riscv_hi20 \<Rightarrow> Inr (drop_bit 12 (Value + 0x800) AND 0xfffff, Ctx)
      | fixup_riscv_pcrel_hi20 \<Rightarrow> Inr (drop_bit 12 (Value + 0x800) AND 0xfffff, Ctx)
      | fixup_riscv_jal \<Rightarrow> Inr (pack_jal Value, check_range_align 21 (Loc Fixup) Value Ctx)
      | fixup_riscv_branch \<Rightarrow> Inr (pack_branch Value, check_range_align 13 (Loc Fixup) Value Ctx)
      | fixup_riscv_rvc_jump \<Rightarrow> Inr (pack_rvc_jump Value, Ctx)
      | fixup_riscv_rvc_branch \<Rightarrow> Inr (pack_rvc_branch Value, Ctx))"

text \<open>\<^verbatim>\<open>getSize(Kind)\<close>: the number of bytes the applier touches.\<close>

fun getSize :: "riscv_kind \<Rightarrow> u32" where
  "getSize fixup_riscv_rvc_jump = 2"
| "getSize fixup_riscv_rvc_branch = 2"
| "getSize _ = 4"

text \<open>
  The byte loop of \<^verbatim>\<open>RISCVAsmBackend::applyFixup\<close>,
  \<^verbatim>\<open>for (unsigned i = 0; i != FullSize; ++i) Data[Offset + i] |= uint8_t((Value >> (i * 8)) & 0xff)\<close>.
  The first argument counts the iterations that remain, the second is \<open>i\<close>. The index
  \<^verbatim>\<open>Offset + i\<close> is computed in 32 bits. An index outside the buffer ends the run with
  \<open>OutOfBounds\<close>: the source has no defined behaviour there.
\<close>

fun merge_bytes :: "nat \<Rightarrow> nat \<Rightarrow> u32 \<Rightarrow> u64 \<Rightarrow> u8 list \<Rightarrow> fault + u8 list" where
  "merge_bytes 0 i Offs Value Data = Inr Data"
| "merge_bytes (Suc n) i Offs Value Data =
     (let idx = unat (Offs + of_nat i)
      in if idx < length Data
         then merge_bytes n (Suc i) Offs Value
                (Data[idx := Data ! idx OR ucast (drop_bit (i * 8) Value AND 0xff)])
         else Inl OutOfBounds)"

text \<open>
  \<^verbatim>\<open>RISCVAsmBackend::applyFixup\<close>. The result is the buffer, the diagnostics context and
  \<^verbatim>\<open>KsError\<close> after the call. \<open>NDEBUG\<close> says whether the build compiles the
  \<^verbatim>\<open>assert\<close> out. The function never assigns \<^verbatim>\<open>KsError\<close>. The shift
  \<^verbatim>\<open>Value <<= Info.TargetOffset\<close> is \<open>push_bit\<close>; every offset of the table is below 64.
\<close>

definition applyFixup ::
  "bool \<Rightarrow> (generic_kind \<Rightarrow> MCFixupKindInfo) \<Rightarrow> riscv_fixup \<Rightarrow> u8 list \<Rightarrow> u64 \<Rightarrow> MCContext \<Rightarrow>
   ks_err \<Rightarrow> fault + (u8 list \<times> MCContext \<times> ks_err)" where
  "applyFixup NDEBUG base Fixup Data Value Ctx KsError =
     (let Info = getFixupKindInfo base (Kind Fixup)
      in if Value = 0 then Inr (Data, Ctx, KsError)
         else case adjustFixupValue Fixup Value Ctx of
                Inl f \<Rightarrow> Inl f
              | Inr (Value1, Ctx1) \<Rightarrow>
                  (let Value2 = push_bit (TargetOffset Info) Value1;
                       Offs = Offset Fixup;
                       FullSize = getSize (Kind Fixup);
                       NumBytes = (of_nat ((TargetSize Info + 7) div 8) :: u32)
                   in if \<not> NDEBUG \<and> \<not> unat (Offs + NumBytes) \<le> length Data
                      then Inl AssertionFailed
                      else case merge_bytes (unat FullSize) 0 Offs Value2 Data of
                             Inl f \<Rightarrow> Inl f
                           | Inr Data1 \<Rightarrow> Inr (Data1, Ctx1, KsError)))"

text \<open>
  Modelled from the spec: \<^verbatim>\<open>MCObjectWriter::write32\<close> is not among the sources; the spec
  has the 4-byte word emitted little-endian. The writer's stream is the list of bytes
  written so far.
\<close>

definition write32 :: "u32 \<Rightarrow> u8 list \<Rightarrow> u8 list" where
  "write32 W OS = OS @ [ucast W, ucast (drop_bit 8 W), ucast (drop_bit 16 W), ucast (drop_bit 24 W)]"

text \<open>
  The loop of \<^verbatim>\<open>RISCVAsmBackend::writeNopData\<close>,
  \<^verbatim>\<open>for (uint64_t i = 0; i < Count; i += 4) OW->write32(0x13)\<close>, with \<open>i\<close> a 64-bit
  counter that wraps around. \<open>None\<close> is a loop that does not end.
\<close>

partial_function (option) nop_loop :: "u64 \<Rightarrow> u64 \<Rightarrow> u8 list \<Rightarrow> u8 list option" where
  "nop_loop i Count OS = (if i < Count then nop_loop (i + 4) Count (write32 0x13 OS) else Some OS)"

text \<open>\<^verbatim>\<open>RISCVAsmBackend::writeNopData\<close>: the returned flag and the stream after the call.\<close>

definition writeNopData :: "u64 \<Rightarrow> u8 list \<Rightarrow> (bool \<times> u8 list) option" where
  "writeNopData Count OS =
     (if Count mod 4 \<noteq> 0 then Some (False, OS)
      else map_option (\<lambda>OS1. (True, OS1)) (nop_loop 0 Count OS))"

section \<open>The SystemZ backend\<close>

datatype systemz_kind =
    SZ_Generic generic_kind
  | FK_390_PC16DBL
  | FK_390_PC32DBL
  | FK_390_TLS_CALL

record systemz_fixup =
  SZ_Kind :: systemz_kind
  SZ_Offset :: u32

text \<open>
  \<^verbatim>\<open>extractBitsForFixup(Kind, Value)\<close>. \<^verbatim>\<open>(int64_t)Value / 2\<close> reads the value as a
  signed 64-bit integer, divides truncating towards zero (\<open>sdiv\<close> on \<open>int\<close>) and converts
  the quotient back to \<^verbatim>\<open>uint64_t\<close>.
\<close>

fun extractBitsForFixup :: "systemz_kind \<Rightarrow> u64 \<Rightarrow> u64" where
  "extractBitsForFixup (SZ_Generic _) Value = Value"
| "extractBitsForFixup FK_390_PC16DBL Value = word_of_int (sint Value sdiv 2)"
| "extractBitsForFixup FK_390_PC32DBL Value = word_of_int (sint Value sdiv 2)"
| "extractBitsForFixup FK_390_TLS_CALL Value = 0"

text \<open>
  \<^verbatim>\<open>SystemZMCAsmBackend::getFixupKindInfo\<close>, the base-class table again the parameter
  \<open>base\<close>.
\<close>

fun SZ_getFixupKindInfo :: "(generic_kind \<Rightarrow> MCFixupKindInfo) \<Rightarrow> systemz_kind \<Rightarrow> MCFixupKindInfo" where
  "SZ_getFixupKindInfo base (SZ_Generic g) = base g"
| "SZ_getFixupKindInfo base FK_390_PC16DBL =
     \<lparr>Name = ''FK_390_PC16DBL'', TargetOffset = 0, TargetSize = 16, IsPCRel = True\<rparr>"
| "SZ_getFixupKindInfo base FK_390_PC32DBL =
     \<lparr>Name = ''FK_390_PC32DBL'', TargetOffset = 0, TargetSize = 32, IsPCRel = True\<rparr>"
| "SZ_getFixupKindInfo base FK_390_TLS_CALL =
     \<lparr>Name = ''FK_390_TLS_CALL'', TargetOffset = 0, TargetSize = 0, IsPCRel = False\<rparr>"

text \<open>
  The big-endian byte loop of \<^verbatim>\<open>SystemZMCAsmBackend::applyFixup\<close>,
  \<^verbatim>\<open>for (unsigned I = 0; I != Size; ++I) { Data[Offset + I] |= uint8_t(Value >> ShiftValue); ShiftValue -= 8; }\<close>.
  The first argument counts the iterations that remain; \<open>I\<close> and \<open>ShiftValue\<close> are
  32-bit and wrap around.
\<close>

fun insert_bytes :: "nat \<Rightarrow> u32 \<Rightarrow> u32 \<Rightarrow> u32 \<Rightarrow> u64 \<Rightarrow> u8 list \<Rightarrow> fault + u8 list" where
  "insert_bytes 0 I Offs ShiftValue Value Data = Inr Data"
| "insert_bytes (Suc n) I Offs ShiftValue Value Data =
     (let idx = unat (Offs + I)
      in if idx < length Data
         then insert_bytes n (I + 1) Offs (ShiftValue - 8) Value
                (Data[idx := Data ! idx OR ucast (drop_bit (unat ShiftValue) Value)])
         else Inl OutOfBounds)"

text \<open>
  \<^verbatim>\<open>SystemZMCAsmBackend::applyFixup\<close>: the buffer and \<^verbatim>\<open>KsError\<close> after the call.
  The sum \<^verbatim>\<open>Offset + Size\<close> of the bounds check is a 32-bit sum.
\<close>

definition SZ_applyFixup ::
  "(generic_kind \<Rightarrow> MCFixupKindInfo) \<Rightarrow> systemz_fixup \<Rightarrow> u8 list \<Rightarrow> u64 \<Rightarrow> ks_err \<Rightarrow>
   fault + (u8 list \<times> ks_err)" where
  "SZ_applyFixup base Fixup Data Value KsError =
     (let Kind = SZ_Kind Fixup;
          Offs = SZ_Offset Fixup;
          Size = (of_nat ((TargetSize (SZ_getFixupKindInfo base Kind) + 7) div 8) :: u32)
      in if unat (Offs + Size) > length Data then Inr (Data, KS_ERR_ASM_FIXUP_INVALID)
         else (let Value1 = extractBitsForFixup Kind Value;
                   ShiftValue = Size * 8 - 8
               in case insert_bytes (unat Size) 0 Offs ShiftValue Value1 Data of
                    Inl f \<Rightarrow> Inl f
                  | Inr Data1 \<Rightarrow> Inr (Data1, KsError)))"

section \<open>Properties of the RISC-V value adjuster\<close>

subsection \<open>Auxiliary facts about the 32-bit locals\<close>

lemma field_take: "k \<le> 32 \<Longrightarrow> field V n (mask k) = ucast (take_bit k (drop_bit n V))"
  unfolding field_def by (simp add: take_bit_eq_mask)

lemma ucast_push_take:
  "n + k \<le> 32 \<Longrightarrow>
   (ucast (push_bit n (ucast (take_bit k (w::u64)) :: u32)) :: u64) = push_bit n (take_bit k w)"
  apply (rule bit_word_eqI)
  apply (simp add: bit_simps)
  apply (auto simp: bit_simps)
  done

lemma widen_field:
  assumes "n + k \<le> 32" and "m = mask k"
  shows "(ucast (push_bit n (field V i m)) :: u64) = push_bit n (take_bit k (drop_bit i V))"
proof -
  from assms have "k \<le> 32" by simp
  then have "field V i m = ucast (take_bit k (drop_bit i V))"
    using assms(2) by (simp add: field_take)
  then show ?thesis using assms(1) by (simp only: ucast_push_take)
qed

lemma widen_field0:
  assumes "k \<le> 32" and "m = mask k"
  shows "(ucast (field V i m) :: u64) = take_bit k (drop_bit i V)"
  using widen_field [of 0 k m V i] assms by simp

lemma pack_jal_bits:
  "pack_jal V =
     push_bit 19 (take_bit 1 (drop_bit 20 V)) OR push_bit 9 (take_bit 10 (drop_bit 1 V)) OR
     push_bit 8 (take_bit 1 (drop_bit 11 V)) OR take_bit 8 (drop_bit 12 V)"
proof -
  have a: "(ucast (push_bit 19 (field V 20 0x1)) :: u64) = push_bit 19 (take_bit 1 (drop_bit 20 V))"
    by (rule widen_field) (simp_all add: mask_eq_exp_minus_1)
  have b: "(ucast (push_bit 9 (field V 1 0x3ff)) :: u64) = push_bit 9 (take_bit 10 (drop_bit 1 V))"
    by (rule widen_field) (simp_all add: mask_eq_exp_minus_1)
  have c: "(ucast (push_bit 8 (field V 11 0x1)) :: u64) = push_bit 8 (take_bit 1 (drop_bit 11 V))"
    by (rule widen_field) (simp_all add: mask_eq_exp_minus_1)
  have d: "(ucast (field V 12 0xff) :: u64) = take_bit 8 (drop_bit 12 V)"
    by (rule widen_field0) (simp_all add: mask_eq_exp_minus_1)
  show ?thesis
    unfolding pack_jal_def Let_def unsigned_or_eq a b c d ..
qed

lemma pack_branch_bits:
  "pack_branch V =
     push_bit 31 (take_bit 1 (drop_bit 12 V)) OR push_bit 25 (take_bit 6 (drop_bit 5 V)) OR
     push_bit 8 (take_bit 4 (drop_bit 1 V)) OR push_bit 7 (take_bit 1 (drop_bit 11 V))"
proof -
  have a: "(ucast (push_bit 31 (field V 12 0x1)) :: u64) = push_bit 31 (take_bit 1 (drop_bit 12 V))"
    by (rule widen_field) (simp_all add: mask_eq_exp_minus_1)
  have b: "(ucast (push_bit 25 (field V 5 0x3f)) :: u64) = push_bit 25 (take_bit 6 (drop_bit 5 V))"
    by (rule widen_field) (simp_all add: mask_eq_exp_minus_1)
  have c: "(ucast (push_bit 8 (field V 1 0xf)) :: u64) = push_bit 8 (take_bit 4 (drop_bit 1 V))"
    by (rule widen_field) (simp_all add: mask_eq_exp_minus_1)
  have d: "(ucast (push_bit 7 (field V 11 0x1)) :: u64) = push_bit 7 (take_bit 1 (drop_bit 11 V))"
    by (rule widen_field) (simp_all add: mask_eq_exp_minus_1)
  show ?thesis
    unfolding pack_branch_def Let_def unsigned_or_eq a b c d ..
qed

lemma odd_and_one: "(V AND 0x1 \<noteq> 0) = odd (unat (V::u64))"
proof -
  have "(V AND 1 \<noteq> 0) = bit V 0" by (simp add: and_one_eq odd_iff_mod_2_eq_one bit_0)
  also have "\<dots> = bit (unat V) 0" by (simp add: bit_unsigned_iff)
  also have "\<dots> = odd (unat V)" by (simp add: bit_0)
  finally show ?thesis by simp
qed

lemma check_range_align_eq:
  "check_range_align N L V Ctx =
     Ctx @ (if isInt N V then [] else [(L, ''fixup value out of range'')]) @
           (if even (unat V) then [] else [(L, ''fixup value must be 2-byte aligned'')])"
  by (simp add: check_range_align_def odd_and_one reportError_def)

lemma low_masks:
  "(0xfff::u64) = mask 12" "(0x7f::u64) = mask 7" "(0x1f::u64) = mask 5" "(0xfffff::u64) = mask 20"
  by (simp_all add: mask_eq_exp_minus_1)

lemma hi20_take: "drop_bit 12 (V + 0x800) AND 0xfffff = take_bit 20 (drop_bit 12 (V + 0x800 :: u64))"
  unfolding low_masks by (simp add: take_bit_eq_mask)

lemma lo12_i_take: "V AND 0xfff = take_bit 12 (V :: u64)"
  unfolding low_masks by (simp only: take_bit_eq_mask)

lemma lo12_s_take:
  "push_bit 25 (drop_bit 5 V AND 0x7f) OR push_bit 7 (V AND 0x1f) =
   push_bit 25 (take_bit 7 (drop_bit 5 V)) OR push_bit 7 (take_bit 5 (V::u64))"
  unfolding low_masks by (simp add: take_bit_eq_mask)

subsection \<open>Jump and branch packing\<close>

text \<open>
  C1. For every 64-bit value \<open>V\<close> that is even and fits in 21 signed bits, the adjuster
  applied to \<open>fixup_riscv_jal\<close> returns bit 20 of \<open>V\<close> at position 19, bits 10..1 at
  position 9, bit 11 at position 8 and bits 19..12 at position 0, and reports nothing.
  The witness is the value \<open>0x1000\<close>, which gives \<open>0x1\<close>.
\<close>

theorem adjustFixupValue_jal:
  assumes "isInt 21 V" and "even (unat V)"
  shows "adjustFixupValue \<lparr>Kind = fixup_riscv_jal, Offset = off, Loc = L\<rparr> V Ctx =
           Inr (push_bit 19 (take_bit 1 (drop_bit 20 V)) OR
                push_bit 9 (take_bit 10 (drop_bit 1 V)) OR
                push_bit 8 (take_bit 1 (drop_bit 11 V)) OR
                take_bit 8 (drop_bit 12 V), Ctx)"
  using assms by (simp add: check_range_align_eq pack_jal_bits)

theorem adjustFixupValue_jal_witness:
  "isInt 21 0x1000 \<and> even (unat (0x1000 :: u64)) \<and>
   adjustFixupValue \<lparr>Kind = fixup_riscv_jal, Offset = 0, Loc = 0\<rparr> 0x1000 [] = Inr (0x1, [])"
proof -
  have r: "isInt 21 0x1000" by (simp add: isInt_def)
  have e: "even (unat (0x1000 :: u64))" by simp
  have v: "push_bit 19 (take_bit 1 (drop_bit 20 (0x1000 :: u64))) OR
           push_bit 9 (take_bit 10 (drop_bit 1 (0x1000 :: u64))) OR
           push_bit 8 (take_bit 1 (drop_bit 11 (0x1000 :: u64))) OR
           take_bit 8 (drop_bit 12 (0x1000 :: u64)) = 0x1"
    by simp
  show ?thesis
    using r e adjustFixupValue_jal [OF r e, of 0 0 "[]"] unfolding v by simp
qed

text \<open>
  C2. For every 64-bit value \<open>V\<close> that is even and fits in 13 signed bits, the adjuster
  applied to \<open>fixup_riscv_branch\<close> returns bit 12 of \<open>V\<close> at position 31, bits 10..5 at
  position 25, bits 4..1 at position 8 and bit 11 at position 7, and reports nothing.
  The witness is the value \<open>0x20\<close>, which gives \<open>0x02000000\<close>.
\<close>

theorem adjustFixupValue_branch:
  assumes "isInt 13 V" and "even (unat V)"
  shows "adjustFixupValue \<lparr>Kind = fixup_riscv_branch, Offset = off, Loc = L\<rparr> V Ctx =
           Inr (push_bit 31 (take_bit 1 (drop_bit 12 V)) OR
                push_bit 25 (take_bit 6 (drop_bit 5 V)) OR
                push_bit 8 (take_bit 4 (drop_bit 1 V)) OR
                push_bit 7 (take_bit 1 (drop_bit 11 V)), Ctx)"
  using assms by (simp add: check_range_align_eq pack_branch_bits)

theorem adjustFixupValue_branch_witness:
  "isInt 13 0x20 \<and> even (unat (0x20 :: u64)) \<and>
   adjustFixupValue \<lparr>Kind = fixup_riscv_branch, Offset = 0, Loc = 0\<rparr> 0x20 [] =
     Inr (0x02000000, [])"
proof -
  have r: "isInt 13 0x20" by (simp add: isInt_def)
  have e: "even (unat (0x20 :: u64))" by simp
  have v: "push_bit 31 (take_bit 1 (drop_bit 12 (0x20 :: u64))) OR
           push_bit 25 (take_bit 6 (drop_bit 5 (0x20 :: u64))) OR
           push_bit 8 (take_bit 4 (drop_bit 1 (0x20 :: u64))) OR
           push_bit 7 (take_bit 1 (drop_bit 11 (0x20 :: u64))) = 0x02000000"
    by simp
  show ?thesis
    using r e adjustFixupValue_branch [OF r e, of 0 0 "[]"] unfolding v by simp
qed

subsection \<open>Hi/lo split kinds\<close>

text \<open>
  C6. For every 64-bit value \<open>V\<close>, \<open>fixup_riscv_hi20\<close> and \<open>fixup_riscv_pcrel_hi20\<close>
  give the low 20 bits of \<open>(V + 0x800) >> 12\<close> (the sum taken modulo \<open>2 ^ 64\<close>),
  \<open>fixup_riscv_lo12_i\<close> gives the low 12 bits of \<open>V\<close>, and \<open>fixup_riscv_lo12_s\<close> gives
  bits 11..5 of \<open>V\<close> at position 25 combined with bits 4..0 of \<open>V\<close> at position 7. None of
  them reports a diagnostic.
\<close>

theorem adjustFixupValue_hi_lo:
  "adjustFixupValue \<lparr>Kind = fixup_riscv_hi20, Offset = off, Loc = L\<rparr> V Ctx =
     Inr (take_bit 20 (drop_bit 12 (V + 0x800)), Ctx) \<and>
   adjustFixupValue \<lparr>Kind = fixup_riscv_pcrel_hi20, Offset = off, Loc = L\<rparr> V Ctx =
     Inr (take_bit 20 (drop_bit 12 (V + 0x800)), Ctx) \<and>
   unat (take_bit 20 (drop_bit 12 (V + 0x800))) = ((unat V + 0x800) mod 2 ^ 64 div 2 ^ 12) mod 2 ^ 20 \<and>
   adjustFixupValue \<lparr>Kind = fixup_riscv_lo12_i, Offset = off, Loc = L\<rparr> V Ctx =
     Inr (take_bit 12 V, Ctx) \<and>
   adjustFixupValue \<lparr>Kind = fixup_riscv_lo12_s, Offset = off, Loc = L\<rparr> V Ctx =
     Inr (push_bit 25 (take_bit 7 (drop_bit 5 V)) OR push_bit 7 (take_bit 5 V), Ctx)"
proof -
  have u: "unat (take_bit 20 (drop_bit 12 (V + 0x800))) =
           ((unat V + 0x800) mod 2 ^ 64 div 2 ^ 12) mod 2 ^ 20"
    by (simp add: unat_drop_bit_eq drop_bit_eq_div take_bit_eq_mod unat_word_ariths
        unsigned_take_bit_eq)
  have a: "adjustFixupValue \<lparr>Kind = fixup_riscv_hi20, Offset = off, Loc = L\<rparr> V Ctx =
             Inr (drop_bit 12 (V + 0x800) AND 0xfffff, Ctx)"
    by simp
  have b: "adjustFixupValue \<lparr>Kind = fixup_riscv_pcrel_hi20, Offset = off, Loc = L\<rparr> V Ctx =
             Inr (drop_bit 12 (V + 0x800) AND 0xfffff, Ctx)"
    by simp
  have c: "adjustFixupValue \<lparr>Kind = fixup_riscv_lo12_i, Offset = off, Loc = L\<rparr> V Ctx =
             Inr (V AND 0xfff, Ctx)"
    by simp
  have d: "adjustFixupValue \<lparr>Kind = fixup_riscv_lo12_s, Offset = off, Loc = L\<rparr> V Ctx =
             Inr (push_bit 25 (drop_bit 5 V AND 0x7f) OR push_bit 7 (V AND 0x1f), Ctx)"
    by simp
  from a [unfolded hi20_take] b [unfolded hi20_take] u c [unfolded lo12_i_take]
    d [unfolded lo12_s_take]
  show ?thesis by (intro conjI)
qed

subsection \<open>Range and alignment diagnostics\<close>

text \<open>
  C3 (as amended). For \<open>fixup_riscv_jal\<close> with \<open>N = 21\<close> and \<open>fixup_riscv_branch\<close> with
  \<open>N = 13\<close>, every value that does not fit in \<open>N\<close> signed bits makes the adjuster append
  the diagnostic \<open>fixup value out of range\<close> at the fixup's location to the context;
  the earlier diagnostics are kept, the only diagnostic that can follow is the alignment
  one, and the adjuster still returns the packed value of the kind, \<open>pack_jal V\<close> or
  \<open>pack_branch V\<close>. The adjuster receives the fixup, the value and the context only: it
  has no fragment buffer to mutate.
\<close>

theorem adjustFixupValue_range_error:
  assumes "(K = fixup_riscv_jal \<and> N = 21 \<and> P = pack_jal V) \<or>
           (K = fixup_riscv_branch \<and> N = 13 \<and> P = pack_branch V)"
    and "\<not> isInt N V"
  shows "adjustFixupValue \<lparr>Kind = K, Offset = off, Loc = L\<rparr> V Ctx =
           Inr (P, Ctx @ [(L, ''fixup value out of range'')] @
                   (if even (unat V) then [] else [(L, ''fixup value must be 2-byte aligned'')]))"
  using assms by (auto simp: check_range_align_eq)

theorem adjustFixupValue_range_error_witness:
  "\<not> isInt 21 0x100000 \<and> \<not> isInt 13 0x1000 \<and>
   adjustFixupValue \<lparr>Kind = fixup_riscv_jal, Offset = 0, Loc = 5\<rparr> 0x100000 [] =
     Inr (0x80000, [(5, ''fixup value out of range'')]) \<and>
   adjustFixupValue \<lparr>Kind = fixup_riscv_branch, Offset = 0, Loc = 5\<rparr> 0x1000 [] =
     Inr (0x80000000, [(5, ''fixup value out of range'')])"
proof -
  have r: "\<not> isInt 21 0x100000" by (simp add: isInt_def)
  have s: "\<not> isInt 13 0x1000" by (simp add: isInt_def)
  have p: "pack_jal 0x100000 = 0x80000" by (simp add: pack_jal_def field_def)
  have q: "pack_branch 0x1000 = 0x80000000" by (simp add: pack_branch_def field_def)
  have j: "adjustFixupValue \<lparr>Kind = fixup_riscv_jal, Offset = 0, Loc = 5\<rparr> 0x100000 [] =
           Inr (0x80000, [(5, ''fixup value out of range'')])"
    using adjustFixupValue_range_error [where K = fixup_riscv_jal and N = 21
        and P = "0x80000" and V = "0x100000" and off = 0 and L = 5 and Ctx = "[]"] r p
    by simp
  have k: "adjustFixupValue \<lparr>Kind = fixup_riscv_branch, Offset = 0, Loc = 5\<rparr> 0x1000 [] =
           Inr (0x80000000, [(5, ''fixup value out of range'')])"
    using adjustFixupValue_range_error [where K = fixup_riscv_branch and N = 13
        and P = "0x80000000" and V = "0x1000" and off = 0 and L = 5 and Ctx = "[]"] s q
    by simp
  from r s j k show ?thesis by (intro conjI)
qed

text \<open>
  The claim C3 as stated also names \<open>fixup_riscv_pcrel_hi20\<close>, \<open>fixup_riscv_rvc_jump\<close>
  and \<open>fixup_riscv_rvc_branch\<close>. The value \<open>2 ^ 62\<close> fits in no signed width below 64
  bits, and for these three kinds the adjuster returns with an empty context: nothing is
  reported.
\<close>

theorem adjustFixupValue_no_range_check:
  "\<not> isInt 63 0x4000000000000000 \<and>
   adjustFixupValue \<lparr>Kind = fixup_riscv_pcrel_hi20, Offset = 0, Loc = 0\<rparr>
     0x4000000000000000 [] = Inr (0, []) \<and>
   adjustFixupValue \<lparr>Kind = fixup_riscv_rvc_jump, Offset = 0, Loc = 0\<rparr>
     0x4000000000000000 [] = Inr (0, []) \<and>
   adjustFixupValue \<lparr>Kind = fixup_riscv_rvc_branch, Offset = 0, Loc = 0\<rparr>
     0x4000000000000000 [] = Inr (0, [])"
  by (simp add: isInt_def pack_rvc_jump_def pack_rvc_branch_def field_def)

text \<open>
  C4. The kinds on which the adjuster imposes 2-byte alignment are \<open>fixup_riscv_jal\<close>
  and \<open>fixup_riscv_branch\<close>. For both and for every odd value the adjuster appends the
  diagnostic \<open>fixup value must be 2-byte aligned\<close> at the fixup's location; it is the
  last diagnostic of the context, after the earlier ones and a possible range diagnostic.
\<close>

theorem adjustFixupValue_alignment_error:
  assumes "K = fixup_riscv_jal \<or> K = fixup_riscv_branch" and "odd (unat V)"
  shows "\<exists>P D. adjustFixupValue \<lparr>Kind = K, Offset = off, Loc = L\<rparr> V Ctx =
           Inr (P, Ctx @ D @ [(L, ''fixup value must be 2-byte aligned'')])"
  using assms by (auto simp: check_range_align_eq)

theorem adjustFixupValue_alignment_error_witness:
  "odd (unat (0x1001 :: u64)) \<and>
   (\<exists>P D. adjustFixupValue \<lparr>Kind = fixup_riscv_jal, Offset = 0, Loc = 3\<rparr> 0x1001 [] =
           Inr (P, [] @ D @ [(3, ''fixup value must be 2-byte aligned'')])) \<and>
   (\<exists>P D. adjustFixupValue \<lparr>Kind = fixup_riscv_branch, Offset = 0, Loc = 3\<rparr> 0x1001 [] =
           Inr (P, [] @ D @ [(3, ''fixup value must be 2-byte aligned'')]))"
proof -
  have o: "odd (unat (0x1001 :: u64))" by simp
  show ?thesis
    using o
      adjustFixupValue_alignment_error [where K = fixup_riscv_jal and V = "0x1001" and off = 0
        and L = 3 and Ctx = "[]"]
      adjustFixupValue_alignment_error [where K = fixup_riscv_branch and V = "0x1001" and off = 0
        and L = 3 and Ctx = "[]"]
    by simp
qed

text \<open>
  The compressed kinds \<open>fixup_riscv_rvc_jump\<close> and \<open>fixup_riscv_rvc_branch\<close> carry no
  check: bit 0 of the value is dropped by the packing and an odd value is not reported.
\<close>

lemma adjustFixupValue_rvc_odd:
  "adjustFixupValue \<lparr>Kind = fixup_riscv_rvc_jump, Offset = 0, Loc = 0\<rparr> 0x3 [] = Inr (0x2, []) \<and>
   adjustFixupValue \<lparr>Kind = fixup_riscv_rvc_branch, Offset = 0, Loc = 0\<rparr> 0x3 [] = Inr (0x8, [])"
  by (simp add: pack_rvc_jump_def pack_rvc_branch_def field_def)

section \<open>Properties of the RISC-V applier\<close>

lemma unat_offset_add_le: "unat ((a::u32) + of_nat i) \<le> unat a + i"
proof -
  have "unat (a + of_nat i) = (unat a + unat (of_nat i :: u32)) mod 2 ^ 32"
    by (simp add: unat_word_ariths)
  also have "\<dots> \<le> unat a + unat (of_nat i :: u32)" by (rule mod_less_eq_dividend)
  also have "unat (of_nat i :: u32) \<le> i" by (simp add: unat_of_nat)
  finally show ?thesis by simp
qed

lemma merge_bytes_zero:
  "unat Offs + (i + n) \<le> length Data \<Longrightarrow> merge_bytes n i Offs 0 Data = Inr Data"
proof (induction n arbitrary: i)
  case 0
  show ?case by simp
next
  case (Suc n)
  have "unat (Offs + of_nat i) \<le> unat Offs + i" by (rule unat_offset_add_le)
  with Suc.prems have idx: "unat (Offs + of_nat i) < length Data" by simp
  from Suc.prems have "unat Offs + (Suc i + n) \<le> length Data" by simp
  then have "merge_bytes n (Suc i) Offs 0 Data = Inr Data" by (rule Suc.IH)
  with idx show ?case by simp
qed

lemma merge_bytes_numeral:
  "merge_bytes (numeral k) i Offs Value Data =
     (let idx = unat (Offs + of_nat i)
      in if idx < length Data
         then merge_bytes (pred_numeral k) (Suc i) Offs Value
                (Data[idx := Data ! idx OR ucast (drop_bit (i * 8) Value AND 0xff)])
         else Inl OutOfBounds)"
  by (simp add: numeral_eq_Suc)

text \<open>
  C7. For a fixup that is in bounds (the \<open>getSize\<close> bytes from its offset lie inside the
  buffer, and so do the bytes of the asserted precondition where the assertion is
  compiled in), an adjusted value of zero leaves the buffer unchanged: a raw value of
  zero returns at once, and otherwise every byte is OR-merged with zero. The context is
  the adjuster's and \<open>KsError\<close> is untouched.
\<close>

theorem applyFixup_zero_adjusted:
  assumes inb: "unat (Offset F) + unat (getSize (Kind F)) \<le> length Data"
    and dbg: "NDEBUG \<or>
              unat (Offset F) + (TargetSize (getFixupKindInfo base (Kind F)) + 7) div 8 \<le> length Data"
    and adj: "adjustFixupValue F V Ctx = Inr (0, Ctx1)"
  shows "applyFixup NDEBUG base F Data V Ctx KsError = Inr (Data, Ctx1, KsError)"
proof (cases "V = 0")
  case True
  with adj have "Ctx1 = Ctx"
    by (cases "Kind F") (auto simp: check_range_align_eq isInt_def split: generic_kind.splits)
  with True show ?thesis by (simp add: applyFixup_def)
next
  case False
  from inb have m: "merge_bytes (unat (getSize (Kind F))) 0 (Offset F) 0 Data = Inr Data"
    by (intro merge_bytes_zero) simp
  have a: "NDEBUG \<or>
           unat (Offset F + of_nat ((TargetSize (getFixupKindInfo base (Kind F)) + 7) div 8))
             \<le> length Data"
    using dbg
      unat_offset_add_le [of "Offset F" "(TargetSize (getFixupKindInfo base (Kind F)) + 7) div 8"]
    by auto
  show ?thesis
    using False adj m a by (auto simp: applyFixup_def Let_def)
qed

theorem applyFixup_zero_adjusted_witness:
  "applyFixup False (\<lambda>_. \<lparr>Name = [], TargetOffset = 0, TargetSize = 0, IsPCRel = False\<rparr>)
     \<lparr>Kind = fixup_riscv_lo12_i, Offset = 0, Loc = 0\<rparr> [0x13, 0x05, 0x05, 0x00] 0x1000 []
     KS_ERR_OK = Inr ([0x13, 0x05, 0x05, 0x00], [], KS_ERR_OK) \<and>
   applyFixup True (\<lambda>_. \<lparr>Name = [], TargetOffset = 0, TargetSize = 0, IsPCRel = False\<rparr>)
     \<lparr>Kind = fixup_riscv_jal, Offset = 0, Loc = 9\<rparr> [0x6f, 0x00, 0x00, 0x00] 0x1 []
     KS_ERR_OK = Inr ([0x6f, 0x00, 0x00, 0x00], [(9, ''fixup value must be 2-byte aligned'')],
                      KS_ERR_OK)"
proof -
  have a: "adjustFixupValue \<lparr>Kind = fixup_riscv_lo12_i, Offset = 0, Loc = 0\<rparr> 0x1000 [] =
           Inr (0, [])"
    by simp
  have b: "adjustFixupValue \<lparr>Kind = fixup_riscv_jal, Offset = 0, Loc = 9\<rparr> 0x1 [] =
           Inr (0, [(9, ''fixup value must be 2-byte aligned'')])"
    by (simp add: pack_jal_def field_def check_range_align_def isInt_def reportError_def)
  have "applyFixup False (\<lambda>_. \<lparr>Name = [], TargetOffset = 0, TargetSize = 0, IsPCRel = False\<rparr>)
     \<lparr>Kind = fixup_riscv_lo12_i, Offset = 0, Loc = 0\<rparr> [0x13, 0x05, 0x05, 0x00] 0x1000 []
     KS_ERR_OK = Inr ([0x13, 0x05, 0x05, 0x00], [], KS_ERR_OK)"
    using a by (intro applyFixup_zero_adjusted) simp_all
  moreover
  have "applyFixup True (\<lambda>_. \<lparr>Name = [], TargetOffset = 0, TargetSize = 0, IsPCRel = False\<rparr>)
     \<lparr>Kind = fixup_riscv_jal, Offset = 0, Loc = 9\<rparr> [0x6f, 0x00, 0x00, 0x00] 0x1 []
     KS_ERR_OK = Inr ([0x6f, 0x00, 0x00, 0x00], [(9, ''fixup value must be 2-byte aligned'')],
                      KS_ERR_OK)"
    using b by (intro applyFixup_zero_adjusted) simp_all
  ultimately show ?thesis by (intro conjI)
qed

text \<open>
  C5. A \<open>fixup_riscv_jal\<close> fixup at offset 2 of a 4-byte buffer has
  \<open>offset + size = 6 > 4\<close>. \<^verbatim>\<open>RISCVAsmBackend::applyFixup\<close> has no bounds check that
  returns: with the assertion compiled out the first two iterations of the loop write
  bytes 2 and 3 (byte 3 changes from \<open>0x00\<close> to \<open>0x10\<close>) and the third indexes the buffer
  at 4, outside it; with the assertion compiled in the assertion fails. In neither build
  is \<open>KsError\<close> set to \<open>KS_ERR_ASM_FIXUP_INVALID\<close> with the buffer unchanged.
\<close>

theorem applyFixup_riscv_out_of_bounds:
  "applyFixup True base \<lparr>Kind = fixup_riscv_jal, Offset = 2, Loc = 0\<rparr> [0x6f, 0, 0, 0]
     0x1000 [] KS_ERR_OK = Inl OutOfBounds \<and>
   applyFixup False base \<lparr>Kind = fixup_riscv_jal, Offset = 2, Loc = 0\<rparr> [0x6f, 0, 0, 0]
     0x1000 [] KS_ERR_OK = Inl AssertionFailed \<and>
   merge_bytes 2 0 2 0x1000 [0x6f, 0, 0, 0] = Inr [0x6f, 0, 0, 0x10]"
proof -
  have a: "adjustFixupValue \<lparr>Kind = fixup_riscv_jal, Offset = 2, Loc = 0\<rparr> 0x1000 [] =
           Inr (1, [])"
    by (simp add: pack_jal_def field_def check_range_align_def isInt_def)
  have m: "merge_bytes 4 0 2 0x1000 [0x6f, 0, 0, 0] = Inl OutOfBounds"
    by (simp add: merge_bytes_numeral)
  have w: "merge_bytes 2 0 2 0x1000 [0x6f, 0, 0, 0] = Inr [0x6f, 0, 0, 0x10]"
    by (simp add: merge_bytes_numeral)
  show ?thesis
    unfolding applyFixup_def Let_def a using m w by simp
qed

text \<open>
  A range diagnostic does not stop the applier: after the adjuster has reported an
  out-of-range jump offset, \<open>applyFixup\<close> still merges the packed value into the buffer.
\<close>

lemma applyFixup_after_range_error:
  "applyFixup True base \<lparr>Kind = fixup_riscv_jal, Offset = 0, Loc = 4\<rparr> [0x6f, 0, 0, 0]
     0x100000 [] KS_ERR_OK =
   Inr ([0x6f, 0, 0, 0x80], [(4, ''fixup value out of range'')], KS_ERR_OK)"
proof -
  have a: "adjustFixupValue \<lparr>Kind = fixup_riscv_jal, Offset = 0, Loc = 4\<rparr> 0x100000 [] =
           Inr (0x80000, [(4, ''fixup value out of range'')])"
    by (simp add: pack_jal_def field_def check_range_align_def isInt_def reportError_def)
  have m: "merge_bytes 4 0 0 0x80000000 [0x6f, 0, 0, 0] = Inr [0x6f, 0, 0, 0x80]"
    by (simp add: merge_bytes_numeral)
  show ?thesis
    unfolding applyFixup_def Let_def a using m by simp
qed

section \<open>Properties of the RISC-V NOP emitter\<close>

lemma write32_nop: "write32 0x13 OS = OS @ [0x13, 0, 0, 0]"
  by (simp add: write32_def)

lemma nop_loop_steps:
  "unat i + 4 * k = unat Count \<Longrightarrow>
   nop_loop i Count OS = Some (OS @ concat (replicate k [0x13, 0, 0, 0]))"
proof (induction k arbitrary: i OS)
  case 0
  then have "i = Count" by (simp add: word_unat_eq_iff)
  then show ?case by (subst nop_loop.simps) simp
next
  case (Suc k)
  have bound: "unat Count < 2 ^ 64" using unsigned_less [of Count] by simp
  from Suc.prems have lt: "i < Count" by (simp add: word_less_nat_alt)
  from Suc.prems bound have "unat i + unat (4 :: u64) < 2 ^ LENGTH(64)" by simp
  then have "unat (i + 4) = unat i + unat (4 :: u64)" by (simp only: unat_add_lem)
  with Suc.prems have "unat (i + 4) + 4 * k = unat Count" by simp
  then have "nop_loop (i + 4) Count (write32 0x13 OS) =
             Some (write32 0x13 OS @ concat (replicate k [0x13, 0, 0, 0]))"
    by (rule Suc.IH)
  with lt show ?case by (subst nop_loop.simps) (simp add: write32_nop)
qed

lemma count_mod4: "(Count mod 4 \<noteq> 0) = (unat (Count :: u64) mod 4 \<noteq> 0)"
proof -
  have "unat (Count mod 4) = unat Count mod unat (4 :: u64)" by (rule unat_mod)
  then have "unat (Count mod 4) = unat Count mod 4" by simp
  then show ?thesis by (metis unat_eq_zero)
qed

text \<open>
  C8. For every byte count, \<open>writeNopData\<close> returns: when the count is not a multiple of
  4 it returns false and the stream is as before; otherwise it returns true and the
  stream has gained exactly \<open>Count / 4\<close> copies of the bytes \<open>13 00 00 00\<close>, the word
  \<open>0x00000013\<close> in little-endian order. The witness has the count 8 emit the word twice
  and the count 6 emit nothing.
\<close>

theorem writeNopData_spec:
  "(unat Count mod 4 \<noteq> 0 \<longrightarrow> writeNopData Count OS = Some (False, OS)) \<and>
   (unat Count mod 4 = 0 \<longrightarrow>
      writeNopData Count OS =
        Some (True, OS @ concat (replicate (unat Count div 4) [0x13, 0, 0, 0])))"
proof (cases "unat Count mod 4 = 0")
  case True
  then have "unat (0 :: u64) + 4 * (unat Count div 4) = unat Count" by auto
  then have "nop_loop 0 Count OS =
             Some (OS @ concat (replicate (unat Count div 4) [0x13, 0, 0, 0]))"
    by (rule nop_loop_steps)
  with True show ?thesis by (simp add: writeNopData_def count_mod4)
next
  case False
  then show ?thesis by (simp add: writeNopData_def count_mod4)
qed

theorem writeNopData_spec_witness:
  "unat (8 :: u64) mod 4 = 0 \<and> unat (6 :: u64) mod 4 \<noteq> 0 \<and>
   writeNopData 8 [] = Some (True, [0x13, 0, 0, 0, 0x13, 0, 0, 0]) \<and>
   writeNopData 6 [] = Some (False, [])"
proof -
  have r: "replicate (unat (8 :: u64) div 4) [0x13, 0, 0, 0 :: u8] =
           [[0x13, 0, 0, 0], [0x13, 0, 0, 0]]"
  proof -
    have "unat (8 :: u64) div 4 = Suc (Suc 0)" by simp
    then show ?thesis by (simp only: replicate.simps)
  qed
  show ?thesis
    using writeNopData_spec [of 8 "[]"] writeNopData_spec [of 6 "[]"] unfolding r by simp
qed

section \<open>Properties of the SystemZ backend\<close>

lemma sdiv2_cases: "(k::int) sdiv 2 = (if 0 \<le> k then k div 2 else - ((- k) div 2))"
  by (simp add: signed_divide_int_def sgn_if)

lemma sdiv2_range:
  assumes "- (2 ^ 63) \<le> (k::int)" and "k < 2 ^ 63"
  shows "- (2 ^ 63) \<le> k sdiv 2 \<and> k sdiv 2 < 2 ^ 63"
  using assms unfolding sdiv2_cases by auto

text \<open>
  The bounds check of \<^verbatim>\<open>SystemZMCAsmBackend::applyFixup\<close>: when the 32-bit sum of offset
  and size exceeds the buffer's length, the call sets \<open>KS_ERR_ASM_FIXUP_INVALID\<close> and
  returns with the buffer as it was.
\<close>

lemma SZ_applyFixup_out_of_bounds:
  assumes "unat (SZ_Offset F + of_nat ((TargetSize (SZ_getFixupKindInfo base (SZ_Kind F)) + 7) div 8))
             > length Data"
  shows "SZ_applyFixup base F Data V KsError = Inr (Data, KS_ERR_ASM_FIXUP_INVALID)"
  using assms by (simp add: SZ_applyFixup_def Let_def)

text \<open>
  The sum of that check wraps around at \<open>2 ^ 32\<close>: for the offset \<open>0xffffffff\<close> and a
  2-byte field the sum is 1, the check passes for a 4-byte buffer, and the loop indexes
  the buffer at \<open>0xffffffff\<close>.
\<close>

lemma insert_bytes_numeral:
  "insert_bytes (numeral k) I Offs ShiftValue Value Data =
     (let idx = unat (Offs + I)
      in if idx < length Data
         then insert_bytes (pred_numeral k) (I + 1) Offs (ShiftValue - 8) Value
                (Data[idx := Data ! idx OR ucast (drop_bit (unat ShiftValue) Value)])
         else Inl OutOfBounds)"
  by (simp add: numeral_eq_Suc)

lemma SZ_applyFixup_offset_wraps:
  "SZ_applyFixup base \<lparr>SZ_Kind = FK_390_PC16DBL, SZ_Offset = 0xffffffff\<rparr> [0xa7, 0xf4, 0, 0]
     0x8 KS_ERR_OK = Inl OutOfBounds"
proof -
  have s: "(of_nat ((16 + 7) div 8) :: u32) = 2" by simp
  have c: "unat ((0xffffffff :: u32) + 2) = 1" by simp
  have l: "insert_bytes 2 0 0xffffffff (2 * 8 - 8) (extractBitsForFixup FK_390_PC16DBL 0x8)
             [0xa7, 0xf4, 0, 0] = Inl OutOfBounds"
    by (simp add: insert_bytes_numeral)
  have u: "unat (2 :: u32) = 2" by simp
  show ?thesis
    unfolding SZ_applyFixup_def Let_def systemz_fixup.simps SZ_getFixupKindInfo.simps
      MCFixupKindInfo.simps s c u l
    by simp
qed

lemma insert_bytes_2:
  assumes "unat off + 2 \<le> length Data"
  shows "insert_bytes 2 0 off 8 Q Data =
     (let D1 = Data[unat off := Data ! unat off OR ucast (drop_bit 8 Q)]
      in Inr (D1[unat (off + 1) := D1 ! unat (off + 1) OR ucast Q]))"
proof -
  have i0: "unat off < length Data" using assms by simp
  have i1: "unat (off + 1) < length Data"
    using unat_offset_add_le [of off 1] assms by simp
  show ?thesis using i0 i1 by (simp add: insert_bytes_numeral Let_def)
qed

lemma insert_bytes_4:
  assumes "unat off + 4 \<le> length Data"
  shows "insert_bytes 4 0 off 24 Q Data =
     (let D1 = Data[unat off := Data ! unat off OR ucast (drop_bit 24 Q)];
          D2 = D1[unat (off + 1) := D1 ! unat (off + 1) OR ucast (drop_bit 16 Q)];
          D3 = D2[unat (off + 2) := D2 ! unat (off + 2) OR ucast (drop_bit 8 Q)]
      in Inr (D3[unat (off + 3) := D3 ! unat (off + 3) OR ucast Q]))"
proof -
  have i0: "unat off < length Data" using assms by simp
  have i1: "unat (off + 1) < length Data"
    using unat_offset_add_le [of off 1] assms by simp
  have i2: "unat (off + 2) < length Data"
    using unat_offset_add_le [of off 2] assms by simp
  have i3: "unat (off + 3) < length Data"
    using unat_offset_add_le [of off 3] assms by simp
  show ?thesis using i0 i1 i2 i3 by (simp add: insert_bytes_numeral Let_def)
qed

lemma SZ_check_2: "unat off + 2 \<le> length Data \<Longrightarrow> \<not> length Data < unat ((off::u32) + 2)"
  using unat_offset_add_le [of off 2] by simp

lemma SZ_check_4: "unat off + 4 \<le> length Data \<Longrightarrow> \<not> length Data < unat ((off::u32) + 4)"
  using unat_offset_add_le [of off 4] by simp

lemma sint_half: "sint (word_of_int (sint (V::u64) sdiv 2) :: u64) = sint V sdiv 2"
proof -
  have lo: "- (2 ^ 63) \<le> sint V" using sint_ge [of V] by simp
  have hi: "sint V < 2 ^ 63" using sint_lt [of V] by simp
  from sdiv2_range [OF lo hi]
  show ?thesis
    by (simp add: sint_sbintrunc' signed_take_bit_int_eq_self)
qed

text \<open>
  C9. For \<open>FK_390_PC16DBL\<close> and \<open>FK_390_PC32DBL\<close> and every resolved value \<open>V\<close>,
  \<open>extractBitsForFixup\<close> gives the quotient \<open>Q\<close> of the signed value of \<open>V\<close> by two,
  truncated towards zero (\<open>sint V div 2\<close> for a non-negative value, \<open>- (- sint V div 2)\<close>
  for a negative one), and that quotient is what \<open>applyFixup\<close> installs: for a fixup in
  bounds the call returns with \<open>KsError\<close> unchanged and the low 16 (or 32) bits of \<open>Q\<close>
  OR-merged into the 2 (or 4) bytes at the offset, most significant byte first. The byte
  indices are the 32-bit sums \<open>Offset + I\<close> of the loop.
\<close>

theorem SZ_applyFixup_halves:
  "extractBitsForFixup FK_390_PC16DBL V = word_of_int (sint V sdiv 2) \<and>
   extractBitsForFixup FK_390_PC32DBL V = word_of_int (sint V sdiv 2) \<and>
   sint (word_of_int (sint V sdiv 2) :: u64) = sint V sdiv 2 \<and>
   sint V sdiv 2 = (if 0 \<le> sint V then sint V div 2 else - ((- sint V) div 2)) \<and>
   (unat off + 2 \<le> length Data \<longrightarrow>
      SZ_applyFixup base \<lparr>SZ_Kind = FK_390_PC16DBL, SZ_Offset = off\<rparr> Data V KsError =
        (let Q = (word_of_int (sint V sdiv 2) :: u64);
             D1 = Data[unat off := Data ! unat off OR ucast (drop_bit 8 Q)]
         in Inr (D1[unat (off + 1) := D1 ! unat (off + 1) OR ucast Q], KsError))) \<and>
   (unat off + 4 \<le> length Data \<longrightarrow>
      SZ_applyFixup base \<lparr>SZ_Kind = FK_390_PC32DBL, SZ_Offset = off\<rparr> Data V KsError =
        (let Q = (word_of_int (sint V sdiv 2) :: u64);
             D1 = Data[unat off := Data ! unat off OR ucast (drop_bit 24 Q)];
             D2 = D1[unat (off + 1) := D1 ! unat (off + 1) OR ucast (drop_bit 16 Q)];
             D3 = D2[unat (off + 2) := D2 ! unat (off + 2) OR ucast (drop_bit 8 Q)]
         in Inr (D3[unat (off + 3) := D3 ! unat (off + 3) OR ucast Q], KsError)))"
proof -
  have a: "unat off + 2 \<le> length Data \<Longrightarrow>
      SZ_applyFixup base \<lparr>SZ_Kind = FK_390_PC16DBL, SZ_Offset = off\<rparr> Data V KsError =
        (let Q = (word_of_int (sint V sdiv 2) :: u64);
             D1 = Data[unat off := Data ! unat off OR ucast (drop_bit 8 Q)]
         in Inr (D1[unat (off + 1) := D1 ! unat (off + 1) OR ucast Q], KsError))"
    using insert_bytes_2 [of off Data "word_of_int (sint V sdiv 2)"]
    by (simp add: SZ_applyFixup_def Let_def SZ_check_2)
  have b: "unat off + 4 \<le> length Data \<Longrightarrow>
      SZ_applyFixup base \<lparr>SZ_Kind = FK_390_PC32DBL, SZ_Offset = off\<rparr> Data V KsError =
        (let Q = (word_of_int (sint V sdiv 2) :: u64);
             D1 = Data[unat off := Data ! unat off OR ucast (drop_bit 24 Q)];
             D2 = D1[unat (off + 1) := D1 ! unat (off + 1) OR ucast (drop_bit 16 Q)];
             D3 = D2[unat (off + 2) := D2 ! unat (off + 2) OR ucast (drop_bit 8 Q)]
         in Inr (D3[unat (off + 3) := D3 ! unat (off + 3) OR ucast Q], KsError))"
    using insert_bytes_4 [of off Data "word_of_int (sint V sdiv 2)"]
    by (simp add: SZ_applyFixup_def Let_def SZ_check_4)
  have c: "sint V sdiv 2 = (if 0 \<le> sint V then sint V div 2 else - ((- sint V) div 2))"
    by (rule sdiv2_cases)
  from a b c sint_half [of V] show ?thesis by simp
qed

theorem SZ_applyFixup_halves_witness:
  "unat (2 :: u32) + 2 \<le> length [0xa7 :: u8, 0xf4, 0, 0] \<and>
   unat (2 :: u32) + 4 \<le> length [0xc0 :: u8, 0xe5, 0, 0, 0, 0] \<and>
   SZ_applyFixup (\<lambda>_. \<lparr>Name = [], TargetOffset = 0, TargetSize = 0, IsPCRel = False\<rparr>)
     \<lparr>SZ_Kind = FK_390_PC16DBL, SZ_Offset = 2\<rparr> [0xa7, 0xf4, 0, 0] (- 6) KS_ERR_OK =
     Inr ([0xa7, 0xf4, 0xff, 0xfd], KS_ERR_OK) \<and>
   SZ_applyFixup (\<lambda>_. \<lparr>Name = [], TargetOffset = 0, TargetSize = 0, IsPCRel = False\<rparr>)
     \<lparr>SZ_Kind = FK_390_PC32DBL, SZ_Offset = 2\<rparr> [0xc0, 0xe5, 0, 0, 0, 0] 0x1001 KS_ERR_OK =
     Inr ([0xc0, 0xe5, 0, 0, 0x08, 0], KS_ERR_OK)"
proof -
  have q1: "(word_of_int (sint (- 6 :: u64) sdiv 2) :: u64) = - 3"
    by (simp add: signed_divide_int_def)
  have q2: "(word_of_int (sint (0x1001 :: u64) sdiv 2) :: u64) = 0x800"
    by (simp add: signed_divide_int_def)
  show ?thesis
    using SZ_applyFixup_halves [where V = "- 6" and off = 2 and Data = "[0xa7, 0xf4, 0, 0]"
        and base = "\<lambda>_. \<lparr>Name = [], TargetOffset = 0, TargetSize = 0, IsPCRel = False\<rparr>"
        and KsError = KS_ERR_OK]
      SZ_applyFixup_halves [where V = "0x1001" and off = 2 and Data = "[0xc0, 0xe5, 0, 0, 0, 0]"
        and base = "\<lambda>_. \<lparr>Name = [], TargetOffset = 0, TargetSize = 0, IsPCRel = False\<rparr>"
        and KsError = KS_ERR_OK]
    unfolding q1 q2 by (simp add: Let_def)
qed

lemma extractBitsForFixup_truncates: "sint (extractBitsForFixup FK_390_PC16DBL (- 3)) = - 1"
  by (simp add: signed_divide_int_def)

text \<open>
  C10. For every value and every offset that is in bounds, applying a fixup of kind
  \<open>FK_390_TLS_CALL\<close> returns with the buffer and \<open>KsError\<close> unchanged: the kind's
  \<open>TargetSize\<close> is 0, so the loop runs zero times, and \<open>extractBitsForFixup\<close> gives 0.
\<close>

theorem SZ_applyFixup_TLS_CALL:
  assumes "unat off \<le> length Data"
  shows "SZ_applyFixup base \<lparr>SZ_Kind = FK_390_TLS_CALL, SZ_Offset = off\<rparr> Data V KsError =
           Inr (Data, KsError) \<and>
         TargetSize (SZ_getFixupKindInfo base FK_390_TLS_CALL) = 0 \<and>
         extractBitsForFixup FK_390_TLS_CALL V = 0"
  using assms by (simp add: SZ_applyFixup_def)

theorem SZ_applyFixup_TLS_CALL_witness:
  "unat (2 :: u32) \<le> length [0xc0 :: u8, 0xe5, 0, 0, 0, 0] \<and>
   SZ_applyFixup (\<lambda>_. \<lparr>Name = [], TargetOffset = 0, TargetSize = 0, IsPCRel = False\<rparr>)
     \<lparr>SZ_Kind = FK_390_TLS_CALL, SZ_Offset = 2\<rparr> [0xc0, 0xe5, 0, 0, 0, 0] 0x1234 KS_ERR_OK =
     Inr ([0xc0, 0xe5, 0, 0, 0, 0], KS_ERR_OK)"
proof -
  have h: "unat (2 :: u32) \<le> length [0xc0 :: u8, 0xe5, 0, 0, 0, 0]" by simp
  show ?thesis
    using h SZ_applyFixup_TLS_CALL [OF h,
        of "\<lambda>_. \<lparr>Name = [], TargetOffset = 0, TargetSize = 0, IsPCRel = False\<rparr>" "0x1234" KS_ERR_OK]
    by simp
qed

end
